theory Spec2Isabelle
  imports Main "HOL-Library.Word"
begin

section \<open>The pending-block builder of the client (class \<open>PendingBlock\<close>)\<close>

text \<open>
  The class keeps a list \<open>pendingPayloads\<close> of pairs of a payload identifier and a
  block builder, and offers \<open>start\<close>, \<open>stop\<close> and \<open>build\<close>. Everything else it
  touches belongs to other packages: the VM and its block builder, the blockchain, the
  transaction pool, the random source. Those are taken as parameters (record
  \<open>Collaborators\<close>) acting on a collaborator state \<open>'w\<close>, so every theorem below
  holds for every behaviour of the collaborators.
\<close>

subsection \<open>Data\<close>

type_synonym bytes = "8 word list"

text \<open>A \<open>BlockBuilder\<close> and a \<open>VM\<close> are objects; the model holds references to them.\<close>

type_synonym builderRef = nat
type_synonym vmRef = nat

text \<open>A JavaScript \<open>Error\<close>; only its \<open>message\<close> is inspected.\<close>

datatype Error = Error (message: string)

record BlockHeader =
  number :: int
  gasLimit :: int
  stateRoot :: bytes

record Block =
  header :: BlockHeader
  blockId :: nat

text \<open>
  \<open>Partial<HeaderData>\<close>: every field is optional. The fields other than the three
  that \<open>start\<close> sets are represented by the ones the engine API passes.
\<close>

record HeaderData =
  number :: "int option"
  gasLimit :: "int option"
  baseFeePerGas :: "int option"
  timestamp :: "int option"
  coinbase :: "bytes option"
  mixHash :: "bytes option"

text \<open>\<open>WithdrawalData\<close>: index, validator index, address, amount.\<close>

datatype WithdrawalData = WithdrawalData int int bytes int

record BlockOpts =
  putBlockIntoBlockchain :: bool
  hardforkByTTD :: int

record BuildBlockOpts =
  parentBlock :: Block
  headerData :: HeaderData
  withdrawals :: "WithdrawalData list option"
  blockOpts :: BlockOpts

text \<open>
  The invocations of collaborators that change or depend on the engine, in the order in
  which the program makes them. The program never reads this list; it is what the
  theorems about the order and the number of invocations speak of.
\<close>

datatype 'tx call =
    SetStateRoot vmRef bytes
  | GetTotalDifficulty vmRef bytes
  | BuildBlock vmRef BuildBlockOpts
  | RandomBytes nat
  | TxsByPriceAndNonce vmRef "int option"
  | AddTransaction builderRef 'tx
  | BuilderBuild builderRef
  | BuilderRevert builderRef

text \<open>
  Modelled from the spec: the classes \<open>VM\<close>, \<open>BlockBuilder\<close>, \<open>TxPool\<close>, \<open>Block\<close>
  and the transaction classes are imported by the file at hand and are not part of it.
  Their operations are the fields of the record below. An operation that may throw
  returns an \<open>Error\<close> as a value; an operation that changes the engine returns the
  new collaborator state. Which operations may fail follows the contracts of section 6 of
  the specification: \<open>addTransaction\<close> fails with the exceeds-remaining-block-gas
  condition or another error, \<open>build()\<close> may fail, the cumulative weight is an
  integer or a failure, \<open>revert()\<close> has an outcome that nobody observes; creating a
  builder, asking the pool and hashing always return.
  \<^item> \<open>isActivatedEIP v n\<close> is \<open>vm._common.isActivatedEIP(n)\<close>;
  \<^item> \<open>calcNextBaseFee\<close> is \<open>header.calcNextBaseFee()\<close>, \<open>blockHash\<close> is \<open>block.hash()\<close>,
    \<open>txHash\<close> is \<open>tx.hash()\<close>;
  \<^item> \<open>hasGetTotalDifficulty v\<close> is
    \<open>typeof vm.blockchain.getTotalDifficulty === 'function'\<close>;
  \<^item> \<open>gasUsed\<close>, \<open>transactions\<close>, \<open>transactionReceipts\<close>, \<open>builderVm\<close> read the fields
    of the same names of a builder, \<open>headerGasLimit\<close> and \<open>headerBaseFeePerGas\<close> read
    \<open>builder.headerData.gasLimit\<close> and \<open>builder.headerData.baseFeePerGas\<close> (the gas
    limit of a builder is the bigint that \<open>start\<close> passed on to \<open>vm.buildBlock\<close>);
  \<^item> \<open>builderBuild\<close> and \<open>builderRevert\<close> are \<open>builder.build()\<close> and
    \<open>builder.revert()\<close>.
\<close>

record ('w, 'tx, 'blk, 'rc) Collaborators =
  isActivatedEIP :: "vmRef \<Rightarrow> nat \<Rightarrow> 'w \<Rightarrow> bool"
  calcNextBaseFee :: "BlockHeader \<Rightarrow> int"
  blockHash :: "Block \<Rightarrow> bytes"
  txHash :: "'tx \<Rightarrow> bytes"
  setStateRoot :: "vmRef \<Rightarrow> bytes \<Rightarrow> 'w \<Rightarrow> 'w"
  hasGetTotalDifficulty :: "vmRef \<Rightarrow> 'w \<Rightarrow> bool"
  getTotalDifficulty :: "vmRef \<Rightarrow> bytes \<Rightarrow> 'w \<Rightarrow> Error + int"
  buildBlock :: "vmRef \<Rightarrow> BuildBlockOpts \<Rightarrow> 'w \<Rightarrow> builderRef \<times> 'w"
  randomBytes :: "nat \<Rightarrow> 'w \<Rightarrow> bytes \<times> 'w"
  txsByPriceAndNonce :: "vmRef \<Rightarrow> int option \<Rightarrow> 'w \<Rightarrow> 'tx list"
  addTransaction :: "builderRef \<Rightarrow> 'tx \<Rightarrow> 'w \<Rightarrow> Error option \<times> 'w"
  gasUsed :: "builderRef \<Rightarrow> 'w \<Rightarrow> int"
  headerGasLimit :: "builderRef \<Rightarrow> 'w \<Rightarrow> int"
  headerBaseFeePerGas :: "builderRef \<Rightarrow> 'w \<Rightarrow> int option"
  builderVm :: "builderRef \<Rightarrow> 'w \<Rightarrow> vmRef"
  transactions :: "builderRef \<Rightarrow> 'w \<Rightarrow> 'tx list"
  transactionReceipts :: "builderRef \<Rightarrow> 'w \<Rightarrow> 'rc"
  builderBuild :: "builderRef \<Rightarrow> 'w \<Rightarrow> (Error + 'blk) \<times> 'w"
  builderRevert :: "builderRef \<Rightarrow> 'w \<Rightarrow> Error option \<times> 'w"

text \<open>
  The state: the field \<open>pendingPayloads\<close> of the object, the state of the
  collaborators, and the invocations made so far.
\<close>

record ('w, 'tx) PendingBlock =
  pendingPayloads :: "(bytes \<times> builderRef) list"
  world :: 'w
  calls :: "'tx call list"

subsection \<open>The transaction loop\<close>

definition gasLimitExceeded :: string where
  "gasLimitExceeded = ''tx has a higher gas limit than the remaining gas in the block''"

text \<open>
  One call of \<open>builder.addTransaction\<close>: the collaborator state after it, with the
  invocation recorded, and the error it threw, if any.
\<close>

definition tryAddTransaction ::
  "('w, 'tx, 'blk, 'rc) Collaborators \<Rightarrow> builderRef \<Rightarrow> 'tx \<Rightarrow> ('w, 'tx) PendingBlock
    \<Rightarrow> Error option \<times> ('w, 'tx) PendingBlock" where
  "tryAddTransaction E builder tx s =
     (let (thrown, w) = addTransaction E builder tx (world s)
      in (thrown, s\<lparr>world := w, calls := calls s @ [AddTransaction builder tx]\<rparr>))"

text \<open>
  The \<open>while\<close> loop of \<open>start\<close> (lines 83 to 107) and of \<open>build\<close> (lines 141 to 163).
  The two loops differ only in where the block gas limit is read: \<open>start\<close> uses the
  constant \<open>gasLimit\<close> of the parent header, \<open>build\<close> reads
  \<open>builder.headerData.gasLimit\<close>; \<open>lim\<close> is that reading. The result is the
  final value of \<open>index\<close> and of \<open>blockFull\<close>, and the state. Logging does not
  affect control flow and is left out.
\<close>

function addTxs ::
  "('w, 'tx, 'blk, 'rc) Collaborators \<Rightarrow> ('w \<Rightarrow> int) \<Rightarrow> builderRef \<Rightarrow> 'tx list \<Rightarrow> nat \<Rightarrow> bool
    \<Rightarrow> ('w, 'tx) PendingBlock \<Rightarrow> nat \<times> bool \<times> ('w, 'tx) PendingBlock" where
  "addTxs E lim builder txs index blockFull s =
     (if index < length txs \<and> \<not> blockFull then
        (case tryAddTransaction E builder (txs ! index) s of
           (None, s') \<Rightarrow> addTxs E lim builder txs (index + 1) blockFull s'
         | (Some error, s') \<Rightarrow>
             if message error = gasLimitExceeded then
               if gasUsed E builder (world s') > lim (world s') - 21000
               then addTxs E lim builder txs (index + 1) True s'
               else addTxs E lim builder txs (index + 1) blockFull s'
             else addTxs E lim builder txs (index + 1) blockFull s')
      else (index, blockFull, s))"
  by pat_completeness auto
termination
  by (relation "measure (\<lambda>(E, lim, builder, txs, index, blockFull, s). length txs - index)") auto

subsection \<open>start, stop, build\<close>

definition noTotalDifficulty :: string where
  "noTotalDifficulty =
     ''cannot get iterator head: blockchain has no getTotalDifficulty function''"

text \<open>
  The options that \<open>start\<close> passes to \<open>vm.buildBlock\<close> (lines 60 to 73): the
  caller's header data with \<open>number\<close>, \<open>gasLimit\<close> and \<open>baseFeePerGas\<close> overwritten.
\<close>

definition startOpts ::
  "Block \<Rightarrow> HeaderData \<Rightarrow> WithdrawalData list option \<Rightarrow> int \<Rightarrow> int \<Rightarrow> int option \<Rightarrow> int
    \<Rightarrow> BuildBlockOpts" where
  "startOpts parent hdata wds number' gasLimit' baseFeePerGas' td =
     \<lparr>parentBlock = parent,
      headerData = hdata\<lparr>HeaderData.number := Some number',
                         HeaderData.gasLimit := Some gasLimit',
                         baseFeePerGas := baseFeePerGas'\<rparr>,
      withdrawals = wds,
      blockOpts = \<lparr>putBlockIntoBlockchain = False, hardforkByTTD = td\<rparr>\<rparr>"

text \<open>
  \<open>start\<close> returns the payload identifier, or the error thrown on the way.
\<close>

definition start ::
  "('w, 'tx, 'blk, 'rc) Collaborators \<Rightarrow> vmRef \<Rightarrow> Block \<Rightarrow> HeaderData
    \<Rightarrow> WithdrawalData list option \<Rightarrow> ('w, 'tx) PendingBlock
    \<Rightarrow> (Error + bytes) \<times> ('w, 'tx) PendingBlock" where
  "start E vm parent hdata wds s =
     (let number' = BlockHeader.number (header parent) + 1;
          gasLimit' = BlockHeader.gasLimit (header parent);
          baseFeePerGas' =
            (if isActivatedEIP E vm 1559 (world s)
             then Some (calcNextBaseFee E (header parent)) else None);
          s1 = s\<lparr>world := setStateRoot E vm (stateRoot (header parent)) (world s),
                 calls := calls s @ [SetStateRoot vm (stateRoot (header parent))]\<rparr>
      in if \<not> hasGetTotalDifficulty E vm (world s1) then (Inl (Error noTotalDifficulty), s1)
         else
           let s2 = s1\<lparr>calls := calls s1 @ [GetTotalDifficulty vm (blockHash E parent)]\<rparr>
           in case getTotalDifficulty E vm (blockHash E parent) (world s2) of
                Inl err \<Rightarrow> (Inl err, s2)
              | Inr td \<Rightarrow>
                  let opts = startOpts parent hdata wds number' gasLimit' baseFeePerGas' td;
                      (builder, w3) = buildBlock E vm opts (world s2);
                      (payloadId, w4) = randomBytes E 8 w3;
                      s4 = s2\<lparr>pendingPayloads := pendingPayloads s2 @ [(payloadId, builder)],
                              world := w4,
                              calls := calls s2 @ [BuildBlock vm opts, RandomBytes 8,
                                                   TxsByPriceAndNonce vm baseFeePerGas']\<rparr>;
                      txs = txsByPriceAndNonce E vm baseFeePerGas' w4;
                      (index, blockFull, s5) = addTxs E (\<lambda>w. gasLimit') builder txs 0 False s4
                  in (Inr payloadId, s5))"

text \<open>
  \<open>stop\<close> returns nothing. The promise of \<open>builder.revert()\<close> is dropped
  (\<open>void\<close>), so whatever it throws never reaches the caller; its effect on the engine is
  taken at once.
\<close>

definition stop ::
  "('w, 'tx, 'blk, 'rc) Collaborators \<Rightarrow> bytes \<Rightarrow> ('w, 'tx) PendingBlock
    \<Rightarrow> (Error + unit) \<times> ('w, 'tx) PendingBlock" where
  "stop E payloadId s =
     (case find (\<lambda>p. fst p = payloadId) (pendingPayloads s) of
        None \<Rightarrow> (Inr (), s)
      | Some payload \<Rightarrow>
          let (outcome, w) = builderRevert E (snd payload) (world s)
          in (Inr (),
              s\<lparr>pendingPayloads := filter (\<lambda>p. fst p \<noteq> payloadId) (pendingPayloads s),
                world := w,
                calls := calls s @ [BuilderRevert (snd payload)]\<rparr>))"

text \<open>
  The candidates of the top-up pass of \<open>build\<close> (lines 135 to 139): the pool's
  transactions whose hash is the hash of no transaction of the builder.
\<close>

definition newTxs ::
  "('w, 'tx, 'blk, 'rc) Collaborators \<Rightarrow> builderRef \<Rightarrow> 'w \<Rightarrow> 'tx list" where
  "newTxs E builder w =
     filter (\<lambda>tx. list_ex (\<lambda>t. txHash E t = txHash E tx) (transactions E builder w) = False)
       (txsByPriceAndNonce E (builderVm E builder w) (headerBaseFeePerGas E builder w) w)"

text \<open>
  The state of \<open>build\<close> after its loop, before \<open>builder.build()\<close> is called.
\<close>

definition topUp ::
  "('w, 'tx, 'blk, 'rc) Collaborators \<Rightarrow> builderRef \<Rightarrow> ('w, 'tx) PendingBlock
    \<Rightarrow> nat \<times> bool \<times> ('w, 'tx) PendingBlock" where
  "topUp E builder s =
     addTxs E (headerGasLimit E builder) builder (newTxs E builder (world s)) 0 False
       (s\<lparr>calls := calls s @ [TxsByPriceAndNonce (builderVm E builder (world s))
                                (headerBaseFeePerGas E builder (world s))]\<rparr>)"

text \<open>
  \<open>build\<close> returns \<open>Inr None\<close> for \<open>undefined\<close> (no such payload),
  \<open>Inr (Some (block, receipts))\<close> for the built block, or the error thrown.
\<close>

definition build ::
  "('w, 'tx, 'blk, 'rc) Collaborators \<Rightarrow> bytes \<Rightarrow> ('w, 'tx) PendingBlock
    \<Rightarrow> (Error + ('blk \<times> 'rc) option) \<times> ('w, 'tx) PendingBlock" where
  "build E payloadId s =
     (case find (\<lambda>p. fst p = payloadId) (pendingPayloads s) of
        None \<Rightarrow> (Inr None, s)
      | Some payload \<Rightarrow>
          let builder = snd payload;
              (index, blockFull, s1) = topUp E builder s;
              (res, w2) = builderBuild E builder (world s1);
              s2 = s1\<lparr>world := w2, calls := calls s1 @ [BuilderBuild builder]\<rparr>
          in case res of
               Inl err \<Rightarrow> (Inl err, s2)
             | Inr block \<Rightarrow>
                 (Inr (Some (block, transactionReceipts E builder (world s2))),
                  s2\<lparr>pendingPayloads :=
                       filter (\<lambda>p. fst p \<noteq> payloadId) (pendingPayloads s2)\<rparr>))"


subsection \<open>The caller's requests\<close>

text \<open>
  A caller issues \<open>start\<close>, \<open>stop\<close> and \<open>build\<close> in some order. \<open>run\<close> performs a
  list of requests one after the other; \<open>startedIds\<close> collects the identifiers that
  the \<open>start\<close> requests among them returned.
\<close>

datatype request =
    Start vmRef Block HeaderData "WithdrawalData list option"
  | Stop bytes
  | Build bytes

fun perform ::
  "('w, 'tx, 'blk, 'rc) Collaborators \<Rightarrow> request \<Rightarrow> ('w, 'tx) PendingBlock
    \<Rightarrow> ('w, 'tx) PendingBlock" where
  "perform E (Start vm parent hdata wds) s = snd (start E vm parent hdata wds s)"
| "perform E (Stop payloadId) s = snd (stop E payloadId s)"
| "perform E (Build payloadId) s = snd (build E payloadId s)"

fun returned ::
  "('w, 'tx, 'blk, 'rc) Collaborators \<Rightarrow> request \<Rightarrow> ('w, 'tx) PendingBlock \<Rightarrow> bytes list" where
  "returned E (Start vm parent hdata wds) s =
     (case fst (start E vm parent hdata wds s) of Inl err \<Rightarrow> [] | Inr payloadId \<Rightarrow> [payloadId])"
| "returned E (Stop payloadId) s = []"
| "returned E (Build payloadId) s = []"

fun run ::
  "('w, 'tx, 'blk, 'rc) Collaborators \<Rightarrow> request list \<Rightarrow> ('w, 'tx) PendingBlock
    \<Rightarrow> ('w, 'tx) PendingBlock" where
  "run E [] s = s"
| "run E (r # rs) s = run E rs (perform E r s)"

fun startedIds ::
  "('w, 'tx, 'blk, 'rc) Collaborators \<Rightarrow> request list \<Rightarrow> ('w, 'tx) PendingBlock
    \<Rightarrow> bytes list" where
  "startedIds E [] s = []"
| "startedIds E (r # rs) s = returned E r s @ startedIds E rs (perform E r s)"

text \<open>The invocations that end a builder's life.\<close>

fun isFinal :: "'tx call \<Rightarrow> bool" where
  "isFinal (BuilderBuild b) = True"
| "isFinal (BuilderRevert b) = True"
| "isFinal c = False"

subsection \<open>A simulated engine\<close>

text \<open>
  Modelled from the spec: the Execution Engine, the Mempool Supplier and the
  Chain-State Provider are not part of the sources at hand. The simulation below follows
  the contracts of section 6 of the specification and serves as the concrete input of
  the examples: a transaction carries its hash and the gas it needs; a builder keeps its
  gas limit, the gas used and the included transactions; \<open>addTransaction\<close> fails with
  the exceeds-remaining-block-gas message when the transaction needs more than the gas
  that remains, with another message when the transaction is invalid, and includes it
  otherwise.
\<close>

record SimTx =
  simHash :: bytes
  simGas :: int
  simValid :: bool

record SimBuilder =
  simGasLimit :: int
  simBaseFee :: "int option"
  simGasUsed :: int
  simTxs :: "SimTx list"

record SimWorld =
  simRoot :: bytes
  simFeeMarket :: bool
  simWeight :: "(Error + int) option"
  simBuilders :: "SimBuilder list"
  simPool :: "SimTx list"
  simEntropy :: "bytes list"
  simSealFails :: bool

definition simBuildBlock :: "vmRef \<Rightarrow> BuildBlockOpts \<Rightarrow> SimWorld \<Rightarrow> builderRef \<times> SimWorld" where
  "simBuildBlock vm opts w =
     (length (simBuilders w),
      w\<lparr>simBuilders := simBuilders w @
          [\<lparr>simGasLimit = (case HeaderData.gasLimit (headerData opts) of
                             Some g \<Rightarrow> g
                           | None \<Rightarrow> BlockHeader.gasLimit (header (parentBlock opts))),
            simBaseFee = baseFeePerGas (headerData opts),
            simGasUsed = 0,
            simTxs = []\<rparr>]\<rparr>)"

definition simAddTransaction ::
  "builderRef \<Rightarrow> SimTx \<Rightarrow> SimWorld \<Rightarrow> Error option \<times> SimWorld" where
  "simAddTransaction b tx w =
     (if length (simBuilders w) \<le> b then (Some (Error ''unknown builder''), w)
      else
        let B = simBuilders w ! b
        in if simGas tx > simGasLimit B - simGasUsed B then (Some (Error gasLimitExceeded), w)
           else if \<not> simValid tx then (Some (Error ''invalid transaction''), w)
           else (None, w\<lparr>simBuilders := (simBuilders w)
                   [b := B\<lparr>simGasUsed := simGasUsed B + simGas tx,
                           simTxs := simTxs B @ [tx]\<rparr>]\<rparr>))"

definition simRandomBytes :: "nat \<Rightarrow> SimWorld \<Rightarrow> bytes \<times> SimWorld" where
  "simRandomBytes n w =
     (case simEntropy w of
        [] \<Rightarrow> (replicate n 0, w)
      | x # xs \<Rightarrow> (x, w\<lparr>simEntropy := xs\<rparr>))"

definition simBuilder :: "builderRef \<Rightarrow> SimWorld \<Rightarrow> SimBuilder" where
  "simBuilder b w =
     (if b < length (simBuilders w) then simBuilders w ! b
      else \<lparr>simGasLimit = 0, simBaseFee = None, simGasUsed = 0, simTxs = []\<rparr>)"

definition sim :: "(SimWorld, SimTx, SimTx list, nat) Collaborators" where
  "sim =
     \<lparr>isActivatedEIP = (\<lambda>vm n w. n = 1559 \<and> simFeeMarket w),
      calcNextBaseFee = (\<lambda>h. 7),
      blockHash = (\<lambda>b. [word_of_nat (blockId b)]),
      txHash = simHash,
      setStateRoot = (\<lambda>vm r w. w\<lparr>simRoot := r\<rparr>),
      hasGetTotalDifficulty = (\<lambda>vm w. simWeight w \<noteq> None),
      getTotalDifficulty = (\<lambda>vm h w. case simWeight w of
                              None \<Rightarrow> Inl (Error ''not a function'') | Some r \<Rightarrow> r),
      buildBlock = simBuildBlock,
      randomBytes = simRandomBytes,
      txsByPriceAndNonce = (\<lambda>vm fee w. simPool w),
      addTransaction = simAddTransaction,
      gasUsed = (\<lambda>b w. simGasUsed (simBuilder b w)),
      headerGasLimit = (\<lambda>b w. simGasLimit (simBuilder b w)),
      headerBaseFeePerGas = (\<lambda>b w. simBaseFee (simBuilder b w)),
      builderVm = (\<lambda>b w. 0),
      transactions = (\<lambda>b w. simTxs (simBuilder b w)),
      transactionReceipts = (\<lambda>b w. length (simTxs (simBuilder b w))),
      builderBuild = (\<lambda>b w. if simSealFails w then (Inl (Error ''seal failed''), w)
                             else (Inr (simTxs (simBuilder b w)), w)),
      builderRevert = (\<lambda>b w. (Some (Error ''revert failed''), w))\<rparr>"

text \<open>A parent block with gas limit 30,000,000 and the header overrides of a request.\<close>

definition simParent :: Block where
  "simParent =
     \<lparr>header = \<lparr>BlockHeader.number = 9, BlockHeader.gasLimit = 30000000,
                 stateRoot = [1, 2]\<rparr>,
      blockId = 5\<rparr>"

definition simHeaderData :: HeaderData where
  "simHeaderData =
     \<lparr>HeaderData.number = None, HeaderData.gasLimit = None, baseFeePerGas = None,
      timestamp = Some 1000, coinbase = None, mixHash = None\<rparr>"

definition simId :: bytes where
  "simId = [7, 7, 7, 7, 7, 7, 7, 7]"

text \<open>
  A fresh object with an empty registry: the fee market is active or not, the chain
  weight is available or not, the pool holds the given transactions, and the random
  source will deliver \<open>simId\<close> every time it is asked (so that two \<open>start\<close> calls
  collide).
\<close>

definition simFresh :: "bool \<Rightarrow> (Error + int) option \<Rightarrow> SimTx list
    \<Rightarrow> (SimWorld, SimTx) PendingBlock" where
  "simFresh feeMarket weight pool =
     \<lparr>pendingPayloads = [],
      world = \<lparr>simRoot = [], simFeeMarket = feeMarket, simWeight = weight,
               simBuilders = [], simPool = pool, simEntropy = [simId, simId],
               simSealFails = False\<rparr>,
      calls = []\<rparr>"

definition txA :: SimTx where
  "txA = \<lparr>simHash = [10], simGas = 29979000, simValid = True\<rparr>"

definition txB :: SimTx where
  "txB = \<lparr>simHash = [11], simGas = 50000, simValid = True\<rparr>"

definition txC :: SimTx where
  "txC = \<lparr>simHash = [12], simGas = 21000, simValid = True\<rparr>"

definition txBad :: SimTx where
  "txBad = \<lparr>simHash = [13], simGas = 21000, simValid = False\<rparr>"

text \<open>
  A registered payload whose builder has included \<open>txA\<close>: 29,979,000 of the
  30,000,000 gas are used, exactly 21,000 remain. The pool has received \<open>txB\<close> and
  \<open>txC\<close> since.
\<close>

definition simNearlyFull :: "(SimWorld, SimTx) PendingBlock" where
  "simNearlyFull =
     \<lparr>pendingPayloads = [(simId, 0)],
      world = \<lparr>simRoot = [1, 2], simFeeMarket = True, simWeight = Some (Inr 100),
               simBuilders = [\<lparr>simGasLimit = 30000000, simBaseFee = Some 7,
                               simGasUsed = 29979000, simTxs = [txA]\<rparr>],
               simPool = [txA, txB, txC], simEntropy = [], simSealFails = False\<rparr>,
      calls = []\<rparr>"

text \<open>
  Two \<open>start\<close> calls on an empty pool for which the random source delivered the same
  identifier: the registry holds two entries under \<open>simId\<close>, with builders 0 and 1.
\<close>

definition simCollided :: "(SimWorld, SimTx) PendingBlock" where
  "simCollided =
     run sim [Start 0 simParent simHeaderData None, Start 0 simParent simHeaderData None]
       (simFresh True (Some (Inr 100)) [])"

section \<open>Properties\<close>

subsection \<open>The transaction loop\<close>

declare addTxs.simps [simp del]

lemmas sim_defs = sim_def simBuildBlock_def simAddTransaction_def simRandomBytes_def
  simBuilder_def simParent_def simHeaderData_def simFresh_def simNearlyFull_def simId_def
  txA_def txB_def txC_def txBad_def

lemmas sim_eval = sim_defs tryAddTransaction_def addTxs.simps start_def startOpts_def stop_def
  build_def topUp_def newTxs_def Let_def gasLimitExceeded_def

lemma tryAdd_pending:
  "tryAddTransaction E b tx s = (r, s') \<Longrightarrow> pendingPayloads s' = pendingPayloads s"
  by (auto simp: tryAddTransaction_def split: prod.splits)

lemma tryAdd_calls:
  "tryAddTransaction E b tx s = (r, s') \<Longrightarrow> calls s' = calls s @ [AddTransaction b tx]"
  by (auto simp: tryAddTransaction_def split: prod.splits)

lemma addTxs_stop:
  "\<not> (index < length txs \<and> \<not> blockFull) \<Longrightarrow>
     addTxs E lim b txs index blockFull s = (index, blockFull, s)"
  by (subst addTxs.simps) (rule if_not_P)

lemma addTxs_step:
  assumes "index < length txs" and "tryAddTransaction E b (txs ! index) s = (r, s1)"
  shows "addTxs E lim b txs index False s =
    addTxs E lim b txs (index + 1)
      (case r of None \<Rightarrow> False
       | Some e \<Rightarrow> message e = gasLimitExceeded \<and>
                  gasUsed E b (world s1) > lim (world s1) - 21000) s1"
  using assms by (subst addTxs.simps) (simp split: option.splits)

text \<open>The loop leaves the registry alone.\<close>

lemma addTxs_pending:
  "addTxs E lim b txs index blockFull s = (n, f, s') \<Longrightarrow>
     pendingPayloads s' = pendingPayloads s"
proof (induction "length txs - index" arbitrary: index blockFull s)
  case 0
  then show ?case by (simp add: addTxs_stop)
next
  case (Suc k)
  show ?case
  proof (cases blockFull)
    case True
    with Suc.prems show ?thesis by (simp add: addTxs_stop)
  next
    case False
    obtain r s1 where t: "tryAddTransaction E b (txs ! index) s = (r, s1)" by fastforce
    have lt: "index < length txs" using Suc.hyps(2) by simp
    have "pendingPayloads s' = pendingPayloads s1"
      using Suc.hyps(1)[of "index + 1"] Suc.hyps(2) Suc.prems False addTxs_step[OF lt t, of lim]
      by simp
    then show ?thesis using tryAdd_pending[OF t] by simp
  qed
qed

text \<open>
  The loop attempts the candidates from \<open>index\<close> up to the place where it stops, in
  order, each once, and invokes nothing else.
\<close>

lemma addTxs_calls:
  "addTxs E lim b txs index blockFull s = (n, f, s') \<Longrightarrow> index \<le> length txs \<Longrightarrow>
     index \<le> n \<and> n \<le> length txs \<and>
     calls s' = calls s @ map (AddTransaction b) (drop index (take n txs))"
proof (induction "length txs - index" arbitrary: index blockFull s)
  case 0
  then show ?case by (simp add: addTxs_stop)
next
  case (Suc k)
  show ?case
  proof (cases blockFull)
    case True
    with Suc.prems show ?thesis by (simp add: addTxs_stop)
  next
    case False
    obtain r s1 where t: "tryAddTransaction E b (txs ! index) s = (r, s1)" by fastforce
    have lt: "index < length txs" using Suc.hyps(2) by simp
    have rec: "index + 1 \<le> n \<and> n \<le> length txs \<and>
        calls s' = calls s1 @ map (AddTransaction b) (drop (index + 1) (take n txs))"
      using Suc.hyps(1)[of "index + 1"] Suc.hyps(2) Suc.prems False addTxs_step[OF lt t, of lim]
      by simp
    have "drop index (take n txs) = txs ! index # drop (index + 1) (take n txs)"
      using Cons_nth_drop_Suc[of index "take n txs"] rec lt by simp
    then show ?thesis using rec tryAdd_calls[OF t] by simp
  qed
qed

text \<open>
  C1, as the code has it. When \<open>addTransaction\<close> fails on the candidate at \<open>index\<close>
  with the message that the transaction has a higher gas limit than the gas remaining in
  the block, then: if fewer than 21000 gas remain (gas limit minus gas used, read after
  the failed attempt), the loop ends there with \<open>blockFull\<close> set, having attempted
  nothing after that candidate; if 21000 gas or more remain, the candidate is skipped
  and the loop goes on with the next one, the block not being full. The bound is
  strict: with exactly 21000 gas left the block is not full.
\<close>

theorem gas_limit_exceeded_full_iff_below_21000:
  assumes "index < length txs"
    and "tryAddTransaction E b (txs ! index) s = (Some err, s1)"
    and "message err = gasLimitExceeded"
  shows "addTxs E lim b txs index False s =
           (if lim (world s1) - gasUsed E b (world s1) < 21000 then (index + 1, True, s1)
            else addTxs E lim b txs (index + 1) False s1)"
proof -
  have "addTxs E lim b txs index False s =
          addTxs E lim b txs (index + 1) (gasUsed E b (world s1) > lim (world s1) - 21000) s1"
    using addTxs_step[OF assms(1,2), of lim] assms(3) by simp
  moreover have "(gasUsed E b (world s1) > lim (world s1) - 21000)
      = (lim (world s1) - gasUsed E b (world s1) < 21000)"
    by arith
  ultimately show ?thesis by (simp add: addTxs_stop)
qed

theorem gas_limit_exceeded_full_iff_below_21000_witness:
  "addTxs sim (headerGasLimit sim 0) 0 [txC, txB] 1 False
     (simNearlyFull\<lparr>world := (world simNearlyFull)\<lparr>simBuilders :=
         [\<lparr>simGasLimit = 30000000, simBaseFee = Some 7,
           simGasUsed = 29980000, simTxs = [txA]\<rparr>]\<rparr>\<rparr>)
   = (2, True,
      simNearlyFull\<lparr>world := (world simNearlyFull)\<lparr>simBuilders :=
         [\<lparr>simGasLimit = 30000000, simBaseFee = Some 7,
           simGasUsed = 29980000, simTxs = [txA]\<rparr>]\<rparr>,
        calls := [AddTransaction 0 txB]\<rparr>)"
  using gas_limit_exceeded_full_iff_below_21000
    [of 1 "[txC, txB]" sim 0
      "simNearlyFull\<lparr>world := (world simNearlyFull)\<lparr>simBuilders :=
         [\<lparr>simGasLimit = 30000000, simBaseFee = Some 7,
           simGasUsed = 29980000, simTxs = [txA]\<rparr>]\<rparr>\<rparr>"
      "Error gasLimitExceeded"
      "simNearlyFull\<lparr>world := (world simNearlyFull)\<lparr>simBuilders :=
         [\<lparr>simGasLimit = 30000000, simBaseFee = Some 7,
           simGasUsed = 29980000, simTxs = [txA]\<rparr>]\<rparr>,
        calls := [AddTransaction 0 txB]\<rparr>"
      "headerGasLimit sim 0"]
  by (simp add: sim_defs tryAddTransaction_def)

text \<open>
  The claim as the specification words it (full when 21000 or less remain) fails at
  the bound. The builder has exactly 21000 gas left; \<open>txB\<close> needs 50000 and fails for
  exceeding the remaining gas; the block is not classified full, and \<open>txC\<close>, which
  needs 21000, is attempted next.
\<close>

theorem gas_limit_exceeded_at_21000_counterexample:
  "tryAddTransaction sim 0 txB simNearlyFull =
     (Some (Error gasLimitExceeded), simNearlyFull\<lparr>calls := [AddTransaction 0 txB]\<rparr>)
   \<and> headerGasLimit sim 0 (world simNearlyFull) - gasUsed sim 0 (world simNearlyFull) = 21000
   \<and> fst (addTxs sim (headerGasLimit sim 0) 0 [txB, txC] 0 False simNearlyFull) = 2
   \<and> fst (snd (addTxs sim (headerGasLimit sim 0) 0 [txB, txC] 0 False simNearlyFull)) = False
   \<and> calls (snd (snd (addTxs sim (headerGasLimit sim 0) 0 [txB, txC] 0 False simNearlyFull)))
       = [AddTransaction 0 txB, AddTransaction 0 txC]
   \<and> fst (build sim simId simNearlyFull) = Inr (Some ([txA, txC], 2))"
  by (simp add: sim_eval)


subsection \<open>The registry\<close>

lemma topUp_pending:
  "topUp E b s = (n, f, s1) \<Longrightarrow> pendingPayloads s1 = pendingPayloads s"
  unfolding topUp_def by (drule addTxs_pending) simp

lemma find_absent:
  "payloadId \<notin> fst ` set ps \<Longrightarrow> find (\<lambda>p. fst p = payloadId) ps = None"
  by (induction ps) auto

lemma build_absent:
  "payloadId \<notin> fst ` set (pendingPayloads s) \<Longrightarrow> build E payloadId s = (Inr None, s)"
  by (simp add: build_def find_absent)

text \<open>\<open>build\<close> changes the registry only when it returns a block.\<close>

lemma build_pending:
  "pendingPayloads (snd (build E payloadId s)) =
     (case fst (build E payloadId s) of
        Inr (Some r) \<Rightarrow> filter (\<lambda>p. fst p \<noteq> payloadId) (pendingPayloads s)
      | _ \<Rightarrow> pendingPayloads s)"
proof (cases "find (\<lambda>p. fst p = payloadId) (pendingPayloads s)")
  case None
  then show ?thesis by (simp add: build_def)
next
  case (Some p)
  obtain n f s1 where t: "topUp E (snd p) s = (n, f, s1)" by (metis prod_cases3)
  have "pendingPayloads s1 = pendingPayloads s" using t by (rule topUp_pending)
  then show ?thesis using Some t
    by (simp add: build_def Let_def split: prod.splits sum.splits)
qed

lemma stop_pending:
  "pendingPayloads (snd (stop E payloadId s)) =
     filter (\<lambda>p. fst p \<noteq> payloadId) (pendingPayloads s)"
proof (cases "find (\<lambda>p. fst p = payloadId) (pendingPayloads s)")
  case None
  then have "\<forall>p \<in> set (pendingPayloads s). fst p \<noteq> payloadId"
    by (auto simp: find_None_iff)
  then have "filter (\<lambda>p. fst p \<noteq> payloadId) (pendingPayloads s) = pendingPayloads s"
    by (simp add: filter_id_conv)
  then show ?thesis using None by (simp add: stop_def)
next
  case (Some p)
  then show ?thesis by (simp add: stop_def split: prod.splits)
qed

text \<open>\<open>start\<close> adds one entry, under the identifier it returns, and only if it returns one.\<close>

lemma start_pending:
  "map fst (pendingPayloads (snd (start E vm parent hdata wds s))) =
     map fst (pendingPayloads s) @ returned E (Start vm parent hdata wds) s"
proof -
  let ?w1 = "setStateRoot E vm (stateRoot (header parent)) (world s)"
  show ?thesis
  proof (cases "hasGetTotalDifficulty E vm ?w1")
    case False
    then show ?thesis by (simp add: start_def Let_def)
  next
    case True
    show ?thesis
    proof (cases "getTotalDifficulty E vm (blockHash E parent) ?w1")
      case (Inl e)
      with True show ?thesis by (simp add: start_def Let_def)
    next
      case (Inr td)
      with True show ?thesis
        by (auto simp: start_def Let_def split: prod.splits dest!: addTxs_pending)
    qed
  qed
qed

lemma perform_ids:
  "fst ` set (pendingPayloads (perform E r s))
     \<subseteq> fst ` set (pendingPayloads s) \<union> set (returned E r s)"
proof (cases r)
  case (Start vm parent hdata wds)
  have "set (map fst (pendingPayloads (perform E r s))) =
          set (map fst (pendingPayloads s)) \<union> set (returned E r s)"
    using start_pending[of E vm parent hdata wds s] Start by simp
  then show ?thesis by simp
next
  case (Stop x)
  then show ?thesis by (auto simp: stop_pending)
next
  case (Build x)
  then show ?thesis by (auto simp: build_pending split: sum.splits option.splits)
qed

lemma run_ids:
  "fst ` set (pendingPayloads (run E rs s))
     \<subseteq> fst ` set (pendingPayloads s) \<union> set (startedIds E rs s)"
proof (induction rs arbitrary: s)
  case Nil
  then show ?case by simp
next
  case (Cons r rs)
  show ?case using Cons.IH[of "perform E r s"] perform_ids[of E r s] by auto
qed

lemma sim_build_nearly_full:
  "build sim simId simNearlyFull =
     (Inr (Some ([txA, txC], 2)),
      \<lparr>pendingPayloads = [],
       world = (world simNearlyFull)\<lparr>simBuilders :=
                  [\<lparr>simGasLimit = 30000000, simBaseFee = Some 7,
                    simGasUsed = 30000000, simTxs = [txA, txC]\<rparr>]\<rparr>,
       calls = [TxsByPriceAndNonce 0 (Some 7), AddTransaction 0 txB, AddTransaction 0 txC,
                BuilderBuild 0]\<rparr>)"
  by (simp add: sim_eval)

text \<open>
  C2. When \<open>build\<close> returns a block for an identifier, no entry of the registry carries
  that identifier afterwards, and after any further requests among which no \<open>start\<close>
  returns the same identifier again, \<open>build\<close> for it returns \<open>undefined\<close> (not found)
  and changes nothing. Likewise, starting from the empty registry, \<open>build\<close> for an
  identifier that no \<open>start\<close> has returned is not found.
\<close>

theorem build_at_most_once:
  "(build E payloadId s = (Inr (Some r), s') \<longrightarrow> payloadId \<notin> set (startedIds E rs s') \<longrightarrow>
      payloadId \<notin> fst ` set (pendingPayloads s') \<and>
      build E payloadId (run E rs s') = (Inr None, run E rs s'))
   \<and> (pendingPayloads s0 = [] \<longrightarrow> unknownId \<notin> set (startedIds E rs0 s0) \<longrightarrow>
      build E unknownId (run E rs0 s0) = (Inr None, run E rs0 s0))"
proof (intro conjI impI)
  assume b: "build E payloadId s = (Inr (Some r), s')"
    and n: "payloadId \<notin> set (startedIds E rs s')"
  show gone: "payloadId \<notin> fst ` set (pendingPayloads s')"
    using build_pending[of E payloadId s] b by auto
  then have "payloadId \<notin> fst ` set (pendingPayloads (run E rs s'))"
    using run_ids[of E rs s'] n by blast
  then show "build E payloadId (run E rs s') = (Inr None, run E rs s')"
    by (rule build_absent)
next
  assume e: "pendingPayloads s0 = []" and n: "unknownId \<notin> set (startedIds E rs0 s0)"
  have "unknownId \<notin> fst ` set (pendingPayloads (run E rs0 s0))"
    using run_ids[of E rs0 s0] n e by auto
  then show "build E unknownId (run E rs0 s0) = (Inr None, run E rs0 s0)"
    by (rule build_absent)
qed

theorem build_at_most_once_witness:
  "build sim simId
     (run sim [Stop [1], Build simId] (snd (build sim simId simNearlyFull)))
   = (Inr None, run sim [Stop [1], Build simId] (snd (build sim simId simNearlyFull)))
   \<and> build sim [9]
       (run sim [Start 0 simParent simHeaderData None]
          (simFresh True (Some (Inr 100)) [txC]))
     = (Inr None,
        run sim [Start 0 simParent simHeaderData None]
          (simFresh True (Some (Inr 100)) [txC]))"
proof -
  obtain r s' where a: "build sim simId simNearlyFull = (Inr (Some r), s')"
    using sim_build_nearly_full by blast
  have b: "simId \<notin> set (startedIds sim [Stop [1], Build simId] s')"
    by simp
  have c: "pendingPayloads (simFresh True (Some (Inr 100)) [txC]) = []"
    by (simp add: simFresh_def)
  have d: "[9] \<notin> set (startedIds sim [Start 0 simParent simHeaderData None]
      (simFresh True (Some (Inr 100)) [txC]))"
    by (simp add: sim_eval)
  show ?thesis
    using build_at_most_once[of sim simId simNearlyFull r s' "[Stop [1], Build simId]"
        "simFresh True (Some (Inr 100)) [txC]" "[9]" "[Start 0 simParent simHeaderData None]"]
      a b c d
    by simp
qed

text \<open>
  C3. When the payload is registered and \<open>builder.build()\<close>, called after the top-up
  pass, throws, then \<open>build\<close> throws that same error, the registry is what it was, and
  a later lookup of the identifier finds the same entry.
\<close>

theorem finalize_failure_keeps_payload:
  assumes "find (\<lambda>p. fst p = payloadId) (pendingPayloads s) = Some p"
    and "topUp E (snd p) s = (n, f, s1)"
    and "builderBuild E (snd p) (world s1) = (Inl err, w2)"
  shows "fst (build E payloadId s) = Inl err
    \<and> pendingPayloads (snd (build E payloadId s)) = pendingPayloads s
    \<and> find (\<lambda>p. fst p = payloadId) (pendingPayloads (snd (build E payloadId s))) = Some p"
proof -
  have "pendingPayloads s1 = pendingPayloads s" using assms(2) by (rule topUp_pending)
  then show ?thesis using assms by (simp add: build_def Let_def)
qed

theorem finalize_failure_keeps_payload_witness:
  "fst (build sim simId (simNearlyFull\<lparr>world := (world simNearlyFull)\<lparr>simSealFails := True\<rparr>\<rparr>))
     = Inl (Error ''seal failed'')
   \<and> pendingPayloads
       (snd (build sim simId
          (simNearlyFull\<lparr>world := (world simNearlyFull)\<lparr>simSealFails := True\<rparr>\<rparr>)))
     = [(simId, 0)]
   \<and> find (\<lambda>p. fst p = simId) (pendingPayloads
       (snd (build sim simId
          (simNearlyFull\<lparr>world := (world simNearlyFull)\<lparr>simSealFails := True\<rparr>\<rparr>))))
     = Some (simId, 0)"
proof -
  let ?s = "simNearlyFull\<lparr>world := (world simNearlyFull)\<lparr>simSealFails := True\<rparr>\<rparr>"
  have a: "find (\<lambda>p. fst p = simId) (pendingPayloads ?s) = Some (simId, 0)"
    by (simp add: simNearlyFull_def)
  have p: "pendingPayloads ?s = [(simId, 0)]"
    by (simp add: simNearlyFull_def)
  obtain n f s1 where b: "topUp sim (snd (simId, 0 :: nat)) ?s = (n, f, s1)"
    by (metis prod_cases3)
  have "simSealFails (world s1)"
    using b by (auto simp: sim_eval)
  then have c: "builderBuild sim (snd (simId, 0 :: nat)) (world s1)
      = (Inl (Error ''seal failed''), world s1)"
    by (simp add: sim_def)
  show ?thesis
    using finalize_failure_keeps_payload[OF a b c] p by simp
qed


subsection \<open>Failures\<close>

lemma start_failure:
  assumes "fst (start E vm parent hdata wds s) = Inl e"
  shows "(\<not> hasGetTotalDifficulty E vm (setStateRoot E vm (stateRoot (header parent)) (world s))
            \<and> e = Error noTotalDifficulty)
         \<or> getTotalDifficulty E vm (blockHash E parent)
              (setStateRoot E vm (stateRoot (header parent)) (world s)) = Inl e"
  using assms by (auto simp: start_def Let_def split: if_splits sum.splits prod.splits)

lemma build_failure:
  assumes "fst (build E payloadId s) = Inl e"
  shows "\<exists>p. find (\<lambda>p. fst p = payloadId) (pendingPayloads s) = Some p
           \<and> fst (builderBuild E (snd p) (world (snd (snd (topUp E (snd p) s))))) = Inl e"
  using assms by (auto simp: build_def Let_def split: option.splits sum.splits prod.splits)

text \<open>
  C4. When \<open>addTransaction\<close> fails on the candidate at \<open>index\<close> with any message other
  than the one for exceeding the remaining block gas, the loop goes on with the next
  candidate, \<open>blockFull\<close> still unset. Such a failure never reaches the caller: \<open>start\<close>
  throws only when the total-difficulty function is missing or its call fails, and
  \<open>build\<close> throws only what \<open>builder.build()\<close> throws.
\<close>

theorem other_failures_are_skipped:
  "(index < length txs \<longrightarrow> tryAddTransaction E b (txs ! index) s = (Some err, s1) \<longrightarrow>
      message err \<noteq> gasLimitExceeded \<longrightarrow>
      addTxs E lim b txs index False s = addTxs E lim b txs (index + 1) False s1)
   \<and> (fst (start E vm parent hdata wds t) = Inl e \<longrightarrow>
        (\<not> hasGetTotalDifficulty E vm (setStateRoot E vm (stateRoot (header parent)) (world t))
           \<and> e = Error noTotalDifficulty)
        \<or> getTotalDifficulty E vm (blockHash E parent)
             (setStateRoot E vm (stateRoot (header parent)) (world t)) = Inl e)
   \<and> (fst (build E payloadId u) = Inl e' \<longrightarrow>
        (\<exists>p. find (\<lambda>p. fst p = payloadId) (pendingPayloads u) = Some p
           \<and> fst (builderBuild E (snd p) (world (snd (snd (topUp E (snd p) u))))) = Inl e'))"
proof (intro conjI impI)
  assume "index < length txs" and "tryAddTransaction E b (txs ! index) s = (Some err, s1)"
    and "message err \<noteq> gasLimitExceeded"
  then show "addTxs E lim b txs index False s = addTxs E lim b txs (index + 1) False s1"
    using addTxs_step[of index txs E b s "Some err" s1 lim] by simp
next
  assume "fst (start E vm parent hdata wds t) = Inl e"
  then show "(\<not> hasGetTotalDifficulty E vm
                 (setStateRoot E vm (stateRoot (header parent)) (world t))
           \<and> e = Error noTotalDifficulty)
        \<or> getTotalDifficulty E vm (blockHash E parent)
             (setStateRoot E vm (stateRoot (header parent)) (world t)) = Inl e"
    by (rule start_failure)
next
  assume "fst (build E payloadId u) = Inl e'"
  then show "\<exists>p. find (\<lambda>p. fst p = payloadId) (pendingPayloads u) = Some p
           \<and> fst (builderBuild E (snd p) (world (snd (snd (topUp E (snd p) u))))) = Inl e'"
    by (rule build_failure)
qed


theorem other_failures_are_skipped_witness:
  "addTxs sim (headerGasLimit sim 0) 0 [txBad, txC] 0 False simNearlyFull
     = addTxs sim (headerGasLimit sim 0) 0 [txBad, txC] 1 False
         (simNearlyFull\<lparr>calls := [AddTransaction 0 txBad]\<rparr>)
   \<and> fst (addTxs sim (headerGasLimit sim 0) 0 [txBad, txC] 0 False simNearlyFull) = 2
   \<and> fst (start sim 0 simParent simHeaderData None (simFresh True (Some (Inr 100)) [txBad, txC]))
       = Inr simId
   \<and> fst (start sim 0 simParent simHeaderData None
            (simFresh True (Some (Inl (Error ''no such block''))) [txBad, txC]))
       = Inl (Error ''no such block'')
   \<and> fst (build sim simId
            (simNearlyFull\<lparr>world := (world simNearlyFull)\<lparr>simSealFails := True\<rparr>\<rparr>))
       = Inl (Error ''seal failed'')"
proof -
  have a: "tryAddTransaction sim 0 ([txBad, txC] ! 0) simNearlyFull
      = (Some (Error ''invalid transaction''), simNearlyFull\<lparr>calls := [AddTransaction 0 txBad]\<rparr>)"
    by (simp add: sim_defs tryAddTransaction_def)
  have b: "message (Error ''invalid transaction'') \<noteq> gasLimitExceeded"
    by (simp add: gasLimitExceeded_def)
  have c: "fst (addTxs sim (headerGasLimit sim 0) 0 [txBad, txC] 0 False simNearlyFull) = 2"
    by (simp add: sim_eval)
  have d: "fst (start sim 0 simParent simHeaderData None
            (simFresh True (Some (Inl (Error ''no such block''))) [txBad, txC]))
       = Inl (Error ''no such block'')"
    by (simp add: sim_eval)
  have d': "fst (start sim 0 simParent simHeaderData None
            (simFresh True (Some (Inr 100)) [txBad, txC])) = Inr simId"
    by (simp add: sim_eval)
  have e: "fst (build sim simId
            (simNearlyFull\<lparr>world := (world simNearlyFull)\<lparr>simSealFails := True\<rparr>\<rparr>))
       = Inl (Error ''seal failed'')"
    by (simp add: sim_eval)
  show ?thesis
    using other_failures_are_skipped[of 0 "[txBad, txC]" sim 0 simNearlyFull
        "Error ''invalid transaction''" "simNearlyFull\<lparr>calls := [AddTransaction 0 txBad]\<rparr>"
        "headerGasLimit sim 0"] a b c d d' e
    by simp
qed

subsection \<open>The invocations of stop and build\<close>

lemma stop_calls:
  "calls (snd (stop E payloadId s)) =
     calls s @ (case find (\<lambda>p. fst p = payloadId) (pendingPayloads s) of
                  None \<Rightarrow> [] | Some p \<Rightarrow> [BuilderRevert (snd p)])"
  by (simp add: stop_def split: option.splits prod.splits)

lemma topUp_calls:
  assumes "topUp E b s = (n, f, s1)"
  shows "n \<le> length (newTxs E b (world s)) \<and>
     calls s1 = calls s @ TxsByPriceAndNonce (builderVm E b (world s))
                            (headerBaseFeePerGas E b (world s))
                  # map (AddTransaction b) (take n (newTxs E b (world s)))"
  using addTxs_calls[OF assms[unfolded topUp_def]] by simp

lemma build_calls:
  assumes "find (\<lambda>p. fst p = payloadId) (pendingPayloads s) = Some p"
  shows "calls (snd (build E payloadId s)) =
     calls s @ TxsByPriceAndNonce (builderVm E (snd p) (world s))
                 (headerBaseFeePerGas E (snd p) (world s))
       # map (AddTransaction (snd p)) (take (fst (topUp E (snd p) s)) (newTxs E (snd p) (world s)))
       @ [BuilderBuild (snd p)]"
proof -
  obtain n f s1 where t: "topUp E (snd p) s = (n, f, s1)" by (metis prod_cases3)
  show ?thesis
    using topUp_calls[OF t] assms t
    by (simp add: build_def Let_def split: prod.splits sum.splits)
qed

lemma not_final_AddTransaction: "filter isFinal (map (AddTransaction b) xs) = []"
  by (induction xs) auto

text \<open>
  C5. For a registered payload, every \<open>addTransaction\<close> that \<open>build\<close> invokes is on that
  payload's builder, with a transaction that the pool returned and whose hash is the hash
  of none of the builder's transactions, as they were when \<open>build\<close> was called: a
  transaction with the hash of an included one is filtered out before the loop.
\<close>

theorem top_up_attempts_only_new_transactions:
  assumes "find (\<lambda>p. fst p = payloadId) (pendingPayloads s) = Some p"
  shows "\<exists>cs. calls (snd (build E payloadId s)) = calls s @ cs
           \<and> (\<forall>b tx. AddTransaction b tx \<in> set cs \<longrightarrow>
                 b = snd p
               \<and> tx \<in> set (txsByPriceAndNonce E (builderVm E (snd p) (world s))
                              (headerBaseFeePerGas E (snd p) (world s)) (world s))
               \<and> txHash E tx \<notin> txHash E ` set (transactions E (snd p) (world s)))"
proof -
  let ?new = "newTxs E (snd p) (world s)"
  let ?cs = "TxsByPriceAndNonce (builderVm E (snd p) (world s))
                 (headerBaseFeePerGas E (snd p) (world s))
       # map (AddTransaction (snd p)) (take (fst (topUp E (snd p) s)) ?new)
       @ [BuilderBuild (snd p)]"
  have new: "tx \<in> set (txsByPriceAndNonce E (builderVm E (snd p) (world s))
                              (headerBaseFeePerGas E (snd p) (world s)) (world s))
           \<and> txHash E tx \<notin> txHash E ` set (transactions E (snd p) (world s))"
    if "tx \<in> set ?new" for tx
    using that by (auto simp: newTxs_def list_ex_iff)
  have "b = snd p \<and> tx \<in> set ?new" if "AddTransaction b tx \<in> set ?cs" for b tx
    using that by (auto dest: in_set_takeD)
  with new have "\<forall>b tx. AddTransaction b tx \<in> set ?cs \<longrightarrow>
                 b = snd p
               \<and> tx \<in> set (txsByPriceAndNonce E (builderVm E (snd p) (world s))
                              (headerBaseFeePerGas E (snd p) (world s)) (world s))
               \<and> txHash E tx \<notin> txHash E ` set (transactions E (snd p) (world s))"
    by blast
  then show ?thesis using build_calls[OF assms, of E] by blast
qed

theorem top_up_attempts_only_new_transactions_witness:
  "calls (snd (build sim simId simNearlyFull)) =
     [TxsByPriceAndNonce 0 (Some 7), AddTransaction 0 txB, AddTransaction 0 txC, BuilderBuild 0]
   \<and> txsByPriceAndNonce sim 0 (Some 7) (world simNearlyFull) = [txA, txB, txC]
   \<and> transactions sim 0 (world simNearlyFull) = [txA]
   \<and> txHash sim txB \<notin> txHash sim ` set (transactions sim 0 (world simNearlyFull))
   \<and> txHash sim txC \<notin> txHash sim ` set (transactions sim 0 (world simNearlyFull))"
proof -
  have a: "find (\<lambda>p. fst p = simId) (pendingPayloads simNearlyFull) = Some (simId, 0)"
    by (simp add: simNearlyFull_def)
  have c: "calls (snd (build sim simId simNearlyFull)) =
     [] @ [TxsByPriceAndNonce 0 (Some 7), AddTransaction 0 txB, AddTransaction 0 txC,
           BuilderBuild 0]"
    by (simp add: sim_build_nearly_full)
  have e: "calls simNearlyFull = []" by (simp add: simNearlyFull_def)
  obtain cs where cs: "calls (snd (build sim simId simNearlyFull)) = calls simNearlyFull @ cs"
    and new: "\<forall>b tx. AddTransaction b tx \<in> set cs \<longrightarrow>
       b = snd (simId, 0 :: nat)
       \<and> tx \<in> set (txsByPriceAndNonce sim (builderVm sim (snd (simId, 0 :: nat)) (world simNearlyFull))
                              (headerBaseFeePerGas sim (snd (simId, 0 :: nat)) (world simNearlyFull)) (world simNearlyFull))
       \<and> txHash sim tx \<notin> txHash sim ` set (transactions sim (snd (simId, 0 :: nat)) (world simNearlyFull))"
    using top_up_attempts_only_new_transactions[OF a, of sim] by blast
  have "cs = [TxsByPriceAndNonce 0 (Some 7), AddTransaction 0 txB, AddTransaction 0 txC,
           BuilderBuild 0]"
    using cs c e by simp
  then have "txHash sim txB \<notin> txHash sim ` set (transactions sim 0 (world simNearlyFull))"
    and "txHash sim txC \<notin> txHash sim ` set (transactions sim 0 (world simNearlyFull))"
    using new by auto
  moreover have "txsByPriceAndNonce sim 0 (Some 7) (world simNearlyFull) = [txA, txB, txC]"
    and "transactions sim 0 (world simNearlyFull) = [txA]"
    by (simp_all add: sim_defs)
  ultimately show ?thesis using c by simp
qed

text \<open>
  C6. \<open>stop\<close> always returns normally, whatever \<open>builder.revert()\<close> does. For an
  identifier that is not in the registry it changes nothing. In every case the registry
  afterwards is the old one without the entries under the identifier, so that a following
  \<open>build\<close> for it returns \<open>undefined\<close> (not found).
\<close>

theorem stop_never_fails:
  "fst (stop E payloadId s) = Inr ()
   \<and> (payloadId \<notin> fst ` set (pendingPayloads s) \<longrightarrow> snd (stop E payloadId s) = s)
   \<and> pendingPayloads (snd (stop E payloadId s))
       = filter (\<lambda>p. fst p \<noteq> payloadId) (pendingPayloads s)
   \<and> payloadId \<notin> fst ` set (pendingPayloads (snd (stop E payloadId s)))
   \<and> build E payloadId (snd (stop E payloadId s)) = (Inr None, snd (stop E payloadId s))"
proof -
  have a: "fst (stop E payloadId s) = Inr ()"
    by (simp add: stop_def split: option.splits prod.splits)
  have b: "payloadId \<notin> fst ` set (pendingPayloads s) \<longrightarrow> snd (stop E payloadId s) = s"
    by (simp add: stop_def find_absent)
  have c: "payloadId \<notin> fst ` set (pendingPayloads (snd (stop E payloadId s)))"
    by (auto simp: stop_pending)
  show ?thesis using a b c build_absent[OF c] stop_pending[of E payloadId s] by simp
qed

theorem stop_never_fails_witness:
  "fst (stop sim simId simNearlyFull) = Inr ()
   \<and> builderRevert sim 0 (world simNearlyFull) = (Some (Error ''revert failed''), world simNearlyFull)
   \<and> pendingPayloads (snd (stop sim simId simNearlyFull)) = []
   \<and> build sim simId (snd (stop sim simId simNearlyFull))
       = (Inr None, snd (stop sim simId simNearlyFull))
   \<and> snd (stop sim [9] simNearlyFull) = simNearlyFull"
proof -
  have "[9] \<notin> fst ` set (pendingPayloads simNearlyFull)"
    by (simp add: simNearlyFull_def simId_def)
  moreover have "filter (\<lambda>p. fst p \<noteq> simId) (pendingPayloads simNearlyFull) = []"
    by (simp add: simNearlyFull_def)
  moreover have "builderRevert sim 0 (world simNearlyFull)
      = (Some (Error ''revert failed''), world simNearlyFull)"
    by (simp add: sim_def)
  ultimately show ?thesis
    using stop_never_fails[of sim simId simNearlyFull] stop_never_fails[of sim "[9]" simNearlyFull]
    by simp
qed

text \<open>
  C10. After \<open>build\<close> has returned a block for an identifier, and after any \<open>stop\<close>,
  no entry under that identifier is left in the registry, however many there were. Of
  the builders registered under it only the first is touched: \<open>build\<close> invokes
  \<open>builder.build()\<close> once, on the first match, and no \<open>builder.revert()\<close>;
  \<open>stop\<close> invokes \<open>builder.revert()\<close> once, on the first match, and nothing else.
\<close>

theorem removal_is_exhaustive:
  "(fst (build E payloadId s) = Inr (Some r) \<longrightarrow>
      payloadId \<notin> fst ` set (pendingPayloads (snd (build E payloadId s))))
   \<and> payloadId \<notin> fst ` set (pendingPayloads (snd (stop E payloadId s)))
   \<and> filter isFinal (calls (snd (build E payloadId s)))
       = filter isFinal (calls s)
         @ (case find (\<lambda>p. fst p = payloadId) (pendingPayloads s) of
              None \<Rightarrow> [] | Some p \<Rightarrow> [BuilderBuild (snd p)])
   \<and> calls (snd (stop E payloadId s))
       = calls s
         @ (case find (\<lambda>p. fst p = payloadId) (pendingPayloads s) of
              None \<Rightarrow> [] | Some p \<Rightarrow> [BuilderRevert (snd p)])"
proof -
  have a: "fst (build E payloadId s) = Inr (Some r) \<longrightarrow>
      payloadId \<notin> fst ` set (pendingPayloads (snd (build E payloadId s)))"
    by (auto simp: build_pending)
  have b: "payloadId \<notin> fst ` set (pendingPayloads (snd (stop E payloadId s)))"
    by (auto simp: stop_pending)
  have c: "filter isFinal (calls (snd (build E payloadId s)))
       = filter isFinal (calls s)
         @ (case find (\<lambda>p. fst p = payloadId) (pendingPayloads s) of
              None \<Rightarrow> [] | Some p \<Rightarrow> [BuilderBuild (snd p)])"
  proof (cases "find (\<lambda>p. fst p = payloadId) (pendingPayloads s)")
    case None
    then show ?thesis by (simp add: build_def)
  next
    case (Some p)
    then show ?thesis by (simp add: build_calls[OF Some] not_final_AddTransaction)
  qed
  show ?thesis using a b c stop_calls[of E payloadId s] by simp
qed


lemma sim_collided_pending: "pendingPayloads simCollided = [(simId, 0), (simId, 1)]"
  by (simp add: simCollided_def sim_eval)

lemma sim_collided_final: "filter isFinal (calls simCollided) = []"
  by (simp add: simCollided_def sim_eval)

theorem removal_is_exhaustive_witness:
  "pendingPayloads simCollided = [(simId, 0), (simId, 1)]
   \<and> pendingPayloads (snd (stop sim simId simCollided)) = []
   \<and> calls (snd (stop sim simId simCollided)) = calls simCollided @ [BuilderRevert 0]
   \<and> fst (build sim simId simCollided) = Inr (Some ([], 0))
   \<and> pendingPayloads (snd (build sim simId simCollided)) = []
   \<and> filter isFinal (calls (snd (build sim simId simCollided))) = [BuilderBuild 0]"
proof -
  have f: "find (\<lambda>p. fst p = simId) (pendingPayloads simCollided) = Some (simId, 0)"
    by (simp add: sim_collided_pending)
  have b: "fst (build sim simId simCollided) = Inr (Some ([], 0))"
    by (simp add: simCollided_def sim_eval)
  have ids: "\<And>ps. simId \<notin> fst ` set ps \<Longrightarrow> set ps \<subseteq> set [(simId, 0 :: nat), (simId, 1)] \<Longrightarrow> ps = []"
    by (case_tac ps) auto
  have sb: "set (pendingPayloads (snd (build sim simId simCollided)))
      \<subseteq> set [(simId, 0), (simId, 1)]"
    using build_pending[of sim simId simCollided] b sim_collided_pending by auto
  have ss: "set (pendingPayloads (snd (stop sim simId simCollided)))
      \<subseteq> set [(simId, 0), (simId, 1)]"
    using stop_pending[of sim simId simCollided] sim_collided_pending by auto
  show ?thesis
    using removal_is_exhaustive[of sim simId simCollided "([], 0)"] f b
      sim_collided_pending sim_collided_final ids[OF _ sb] ids[OF _ ss]
    by simp
qed

subsection \<open>The invocations of start\<close>

lemma start_no_capability:
  assumes "\<not> hasGetTotalDifficulty E vm (setStateRoot E vm (stateRoot (header parent)) (world s))"
  shows "start E vm parent hdata wds s =
    (Inl (Error noTotalDifficulty),
     s\<lparr>world := setStateRoot E vm (stateRoot (header parent)) (world s),
       calls := calls s @ [SetStateRoot vm (stateRoot (header parent))]\<rparr>)"
  using assms by (simp add: start_def Let_def)

lemma start_no_weight:
  assumes "hasGetTotalDifficulty E vm (setStateRoot E vm (stateRoot (header parent)) (world s))"
    and "getTotalDifficulty E vm (blockHash E parent)
           (setStateRoot E vm (stateRoot (header parent)) (world s)) = Inl err"
  shows "start E vm parent hdata wds s =
    (Inl err,
     s\<lparr>world := setStateRoot E vm (stateRoot (header parent)) (world s),
       calls := calls s @ [SetStateRoot vm (stateRoot (header parent)),
                           GetTotalDifficulty vm (blockHash E parent)]\<rparr>)"
  using assms by (simp add: start_def Let_def)

lemma start_calls:
  assumes "hasGetTotalDifficulty E vm (setStateRoot E vm (stateRoot (header parent)) (world s))"
    and "getTotalDifficulty E vm (blockHash E parent)
           (setStateRoot E vm (stateRoot (header parent)) (world s)) = Inr td"
    and "fee = (if isActivatedEIP E vm 1559 (world s)
                then Some (calcNextBaseFee E (header parent)) else None)"
    and "opts = startOpts parent hdata wds (BlockHeader.number (header parent) + 1)
                  (BlockHeader.gasLimit (header parent)) fee td"
  shows "\<exists>n b txs pid. fst (start E vm parent hdata wds s) = Inr pid \<and>
    calls (snd (start E vm parent hdata wds s)) =
      calls s @ [SetStateRoot vm (stateRoot (header parent)),
                 GetTotalDifficulty vm (blockHash E parent),
                 BuildBlock vm opts, RandomBytes 8, TxsByPriceAndNonce vm fee]
        @ map (AddTransaction b) (take n txs)"
proof -
  let ?w1 = "setStateRoot E vm (stateRoot (header parent)) (world s)"
  obtain b w3 where bb: "buildBlock E vm opts ?w1 = (b, w3)" by fastforce
  obtain pid w4 where rb: "randomBytes E 8 w3 = (pid, w4)" by fastforce
  let ?s4 = "s\<lparr>pendingPayloads := pendingPayloads s @ [(pid, b)], world := w4,
      calls := calls s @ [SetStateRoot vm (stateRoot (header parent)),
                 GetTotalDifficulty vm (blockHash E parent),
                 BuildBlock vm opts, RandomBytes 8, TxsByPriceAndNonce vm fee]\<rparr>"
  let ?txs = "txsByPriceAndNonce E vm fee w4"
  obtain n f s5 where
    l: "addTxs E (\<lambda>w. BlockHeader.gasLimit (header parent)) b ?txs 0 False ?s4 = (n, f, s5)"
    by (metis prod_cases3)
  have st: "start E vm parent hdata wds s = (Inr pid, s5)"
    using assms bb rb l by (simp add: start_def Let_def)
  have "calls s5 = calls ?s4 @ map (AddTransaction b) (take n ?txs)"
    using addTxs_calls[OF l] by simp
  then show ?thesis using st by auto
qed

text \<open>
  C7. In the header data that \<open>start\<close> passes to \<open>vm.buildBlock\<close>, \<open>baseFeePerGas\<close>
  is present exactly when EIP 1559 is activated in the VM's chain configuration; when
  present it is \<open>parentBlock.header.calcNextBaseFee()\<close>; otherwise it is \<open>undefined\<close>.
  A \<open>start\<close> that returns an identifier has made that call.
\<close>

theorem base_fee_iff_eip1559:
  "\<exists>cs. calls (snd (start E vm parent hdata wds s)) = calls s @ cs
     \<and> (\<forall>v opts. BuildBlock v opts \<in> set cs \<longrightarrow>
           (baseFeePerGas (headerData opts) \<noteq> None) = isActivatedEIP E vm 1559 (world s)
         \<and> (isActivatedEIP E vm 1559 (world s) \<longrightarrow>
              baseFeePerGas (headerData opts) = Some (calcNextBaseFee E (header parent))))
     \<and> (\<forall>pid. fst (start E vm parent hdata wds s) = Inr pid \<longrightarrow>
           (\<exists>opts. BuildBlock vm opts \<in> set cs))"
proof -
  let ?w1 = "setStateRoot E vm (stateRoot (header parent)) (world s)"
  let ?fee = "if isActivatedEIP E vm 1559 (world s)
                then Some (calcNextBaseFee E (header parent)) else None"
  show ?thesis
  proof (cases "hasGetTotalDifficulty E vm ?w1")
    case False
    show ?thesis
      by (rule exI[of _ "[SetStateRoot vm (stateRoot (header parent))]"])
        (simp add: start_no_capability[OF False])
  next
    case True
    show ?thesis
    proof (cases "getTotalDifficulty E vm (blockHash E parent) ?w1")
      case (Inl err)
      show ?thesis
        by (rule exI[of _ "[SetStateRoot vm (stateRoot (header parent)),
                           GetTotalDifficulty vm (blockHash E parent)]"])
          (simp add: start_no_weight[OF True Inl])
    next
      case (Inr td)
      let ?opts = "startOpts parent hdata wds (BlockHeader.number (header parent) + 1)
                  (BlockHeader.gasLimit (header parent)) ?fee td"
      obtain n b txs pid where
        c: "calls (snd (start E vm parent hdata wds s)) =
          calls s @ [SetStateRoot vm (stateRoot (header parent)),
                 GetTotalDifficulty vm (blockHash E parent),
                 BuildBlock vm ?opts, RandomBytes 8, TxsByPriceAndNonce vm ?fee]
            @ map (AddTransaction b) (take n txs)"
        using start_calls[OF True Inr refl refl, of hdata wds] by blast
      have f: "baseFeePerGas (headerData ?opts) = ?fee"
        by (simp add: startOpts_def)
      show ?thesis
        by (rule exI[of _ "[SetStateRoot vm (stateRoot (header parent)),
                 GetTotalDifficulty vm (blockHash E parent),
                 BuildBlock vm ?opts, RandomBytes 8, TxsByPriceAndNonce vm ?fee]
            @ map (AddTransaction b) (take n txs)"])
          (use c f in auto)
    qed
  qed
qed

theorem base_fee_iff_eip1559_witness:
  "BuildBlock 0 (startOpts simParent simHeaderData None 10 30000000 (Some 7) 100)
     \<in> set (calls (snd (start sim 0 simParent simHeaderData None
                          (simFresh True (Some (Inr 100)) []))))
   \<and> isActivatedEIP sim 0 1559 (world (simFresh True (Some (Inr 100)) []))
   \<and> baseFeePerGas (headerData (startOpts simParent simHeaderData None 10 30000000 (Some 7) 100))
       = Some (calcNextBaseFee sim (header simParent))
   \<and> BuildBlock 0 (startOpts simParent simHeaderData None 10 30000000 None 100)
     \<in> set (calls (snd (start sim 0 simParent simHeaderData None
                          (simFresh False (Some (Inr 100)) []))))
   \<and> \<not> isActivatedEIP sim 0 1559 (world (simFresh False (Some (Inr 100)) []))
   \<and> baseFeePerGas (headerData (startOpts simParent simHeaderData None 10 30000000 None 100))
       = None"
proof -
  let ?on = "simFresh True (Some (Inr 100)) []"
  let ?off = "simFresh False (Some (Inr 100)) []"
  let ?optsOn = "startOpts simParent simHeaderData None 10 30000000 (Some 7) 100"
  let ?optsOff = "startOpts simParent simHeaderData None 10 30000000 None 100"
  have on: "calls (snd (start sim 0 simParent simHeaderData None ?on)) =
      [SetStateRoot 0 [1, 2], GetTotalDifficulty 0 [5], BuildBlock 0 ?optsOn, RandomBytes 8,
       TxsByPriceAndNonce 0 (Some 7)]"
    by (simp add: sim_eval)
  have off: "calls (snd (start sim 0 simParent simHeaderData None ?off)) =
      [SetStateRoot 0 [1, 2], GetTotalDifficulty 0 [5], BuildBlock 0 ?optsOff, RandomBytes 8,
       TxsByPriceAndNonce 0 None]"
    by (simp add: sim_eval)
  have e: "calls ?on = []" "calls ?off = []" by (simp_all add: simFresh_def)
  have aOn: "isActivatedEIP sim 0 1559 (world ?on)"
    and aOff: "\<not> isActivatedEIP sim 0 1559 (world ?off)"
    by (simp_all add: sim_defs)
  obtain cs where cs: "calls (snd (start sim 0 simParent simHeaderData None ?on)) = calls ?on @ cs"
    and fee: "\<forall>v opts. BuildBlock v opts \<in> set cs \<longrightarrow>
           (baseFeePerGas (headerData opts) \<noteq> None) = isActivatedEIP sim 0 1559 (world ?on)
         \<and> (isActivatedEIP sim 0 1559 (world ?on) \<longrightarrow>
              baseFeePerGas (headerData opts) = Some (calcNextBaseFee sim (header simParent)))"
    using base_fee_iff_eip1559[of sim 0 simParent simHeaderData None ?on] by blast
  have "BuildBlock 0 ?optsOn \<in> set cs" using cs on e by auto
  then have r1: "baseFeePerGas (headerData ?optsOn) = Some (calcNextBaseFee sim (header simParent))"
    using fee aOn by blast
  obtain cs' where cs': "calls (snd (start sim 0 simParent simHeaderData None ?off)) = calls ?off @ cs'"
    and fee': "\<forall>v opts. BuildBlock v opts \<in> set cs' \<longrightarrow>
           (baseFeePerGas (headerData opts) \<noteq> None) = isActivatedEIP sim 0 1559 (world ?off)
         \<and> (isActivatedEIP sim 0 1559 (world ?off) \<longrightarrow>
              baseFeePerGas (headerData opts) = Some (calcNextBaseFee sim (header simParent)))"
    using base_fee_iff_eip1559[of sim 0 simParent simHeaderData None ?off] by blast
  have "BuildBlock 0 ?optsOff \<in> set cs'" using cs' off e by auto
  then have r2: "baseFeePerGas (headerData ?optsOff) = None"
    using fee' aOff by blast
  show ?thesis using on off aOn aOff r1 r2 by simp
qed

text \<open>
  C8. When \<open>vm.blockchain.getTotalDifficulty\<close> is not a function, \<open>start\<close> throws the
  error "cannot get iterator head: blockchain has no getTotalDifficulty function"; the
  registry is unchanged, and the only invocation made is the reset of the state root: no
  builder has been created.
\<close>

theorem missing_total_difficulty_fails_start:
  assumes "\<not> hasGetTotalDifficulty E vm (setStateRoot E vm (stateRoot (header parent)) (world s))"
  shows "fst (start E vm parent hdata wds s) = Inl (Error noTotalDifficulty)
    \<and> pendingPayloads (snd (start E vm parent hdata wds s)) = pendingPayloads s
    \<and> calls (snd (start E vm parent hdata wds s))
        = calls s @ [SetStateRoot vm (stateRoot (header parent))]"
  by (simp add: start_no_capability[OF assms])

theorem missing_total_difficulty_fails_start_witness:
  "fst (start sim 0 simParent simHeaderData None (simFresh True None [txC]))
     = Inl (Error noTotalDifficulty)
   \<and> pendingPayloads (snd (start sim 0 simParent simHeaderData None (simFresh True None [txC])))
     = []
   \<and> calls (snd (start sim 0 simParent simHeaderData None (simFresh True None [txC])))
     = [SetStateRoot 0 [1, 2]]"
proof -
  have "\<not> hasGetTotalDifficulty sim 0
      (setStateRoot sim 0 (stateRoot (header simParent)) (world (simFresh True None [txC])))"
    by (simp add: sim_defs)
  from missing_total_difficulty_fails_start[OF this, of simHeaderData None]
  show ?thesis by (simp add: simFresh_def simParent_def)
qed

text \<open>
  C9. The first thing every \<open>start\<close> invokes is \<open>vm.eei.setStateRoot\<close> with the state
  root of the parent header; the creation of the builder and every \<open>addTransaction\<close>
  come after it. What \<open>start\<close> does depends on the engine's state before the call only
  through the state that this reset yields (and through the fork configuration read
  before it): from two states that the reset makes equal, \<open>start\<close> behaves the same.
\<close>

theorem state_root_reset_first:
  "(\<exists>cs. calls (snd (start E vm parent hdata wds s))
           = calls s @ SetStateRoot vm (stateRoot (header parent)) # cs
         \<and> (\<forall>pid. fst (start E vm parent hdata wds s) = Inr pid \<longrightarrow>
               (\<exists>opts. BuildBlock vm opts \<in> set cs)))
   \<and> (pendingPayloads t = pendingPayloads s \<and> calls t = calls s
        \<and> isActivatedEIP E vm 1559 (world t) = isActivatedEIP E vm 1559 (world s)
        \<and> setStateRoot E vm (stateRoot (header parent)) (world t)
            = setStateRoot E vm (stateRoot (header parent)) (world s)
      \<longrightarrow> start E vm parent hdata wds t = start E vm parent hdata wds s)"
proof
  let ?w1 = "setStateRoot E vm (stateRoot (header parent)) (world s)"
  show "\<exists>cs. calls (snd (start E vm parent hdata wds s))
           = calls s @ SetStateRoot vm (stateRoot (header parent)) # cs
         \<and> (\<forall>pid. fst (start E vm parent hdata wds s) = Inr pid \<longrightarrow>
               (\<exists>opts. BuildBlock vm opts \<in> set cs))"
  proof (cases "hasGetTotalDifficulty E vm ?w1")
    case False
    show ?thesis by (simp add: start_no_capability[OF False])
  next
    case True
    show ?thesis
    proof (cases "getTotalDifficulty E vm (blockHash E parent) ?w1")
      case (Inl err)
      show ?thesis by (simp add: start_no_weight[OF True Inl])
    next
      case (Inr td)
      show ?thesis using start_calls[OF True Inr refl refl, of hdata wds] by auto
    qed
  qed
next
  show "pendingPayloads t = pendingPayloads s \<and> calls t = calls s
        \<and> isActivatedEIP E vm 1559 (world t) = isActivatedEIP E vm 1559 (world s)
        \<and> setStateRoot E vm (stateRoot (header parent)) (world t)
            = setStateRoot E vm (stateRoot (header parent)) (world s)
      \<longrightarrow> start E vm parent hdata wds t = start E vm parent hdata wds s"
    by (cases s; cases t) (simp add: start_def Let_def)
qed

theorem state_root_reset_first_witness:
  "start sim 0 simParent simHeaderData None
     ((simFresh True (Some (Inr 100)) [txC])
        \<lparr>world := (world (simFresh True (Some (Inr 100)) [txC]))\<lparr>simRoot := [9, 9]\<rparr>\<rparr>)
   = start sim 0 simParent simHeaderData None (simFresh True (Some (Inr 100)) [txC])
   \<and> take 1 (calls (snd (start sim 0 simParent simHeaderData None
                (simFresh True (Some (Inr 100)) [txC]))))
     = [SetStateRoot 0 [1, 2]]
   \<and> simRoot (world (simFresh True (Some (Inr 100)) [txC])) = []"
proof -
  let ?s = "simFresh True (Some (Inr 100)) [txC]"
  let ?t = "?s\<lparr>world := (world ?s)\<lparr>simRoot := [9, 9]\<rparr>\<rparr>"
  have h: "pendingPayloads ?t = pendingPayloads ?s \<and> calls ?t = calls ?s
        \<and> isActivatedEIP sim 0 1559 (world ?t) = isActivatedEIP sim 0 1559 (world ?s)
        \<and> setStateRoot sim 0 (stateRoot (header simParent)) (world ?t)
            = setStateRoot sim 0 (stateRoot (header simParent)) (world ?s)"
    by (simp add: sim_defs)
  have e: "calls ?s = []" "simRoot (world ?s) = []" "stateRoot (header simParent) = [1, 2]"
    by (simp_all add: simFresh_def simParent_def)
  show ?thesis
    using state_root_reset_first[of sim 0 simParent simHeaderData None ?s ?t] h e
    by auto
qed

end
